theory Spec2Isabelle
  imports Complex_Main "HOL-Library.Word"
begin

section \<open>Tokens\<close>

text \<open>
  The enumeration \<^verbatim>\<open>token_type\<close> of \<^verbatim>\<open>main.cpp\<close>, constructor by constructor.
  Its value-initialised member (\<^verbatim>\<open>token_type{}\<close>) is \<open>unknown\<close>.
\<close>

datatype token_type =
  unknown | number | open_bracket | close_bracket | op_add | op_sub | op_mul | op_div

text \<open>
  The class \<^verbatim>\<open>token\<close>. The field \<^verbatim>\<open>number\<close> is a \<^verbatim>\<open>double\<close> in the source; the
  model leaves the type of numbers open (the type variable \<open>'a\<close>) and asks only for
  the operations the source uses on it: a zero (the value-initialised \<^verbatim>\<open>double\<close>) and
  \<open>+\<close>, \<open>-\<close>, \<open>*\<close>, \<open>/\<close>. Nothing is assumed about these operations, so every general
  theorem below holds of IEEE binary64 arithmetic as well. The fields carry the prefix
  \<open>tk_\<close> because \<open>number\<close> is already the name of an enumerator.
\<close>

record 'a token =
  tk_type :: token_type
  tk_text :: string
  tk_number :: 'a

definition token_init :: "('a::zero) token" where
  "token_init = \<lparr>tk_type = unknown, tk_text = [], tk_number = 0\<rparr>"

text \<open>\<^verbatim>\<open>token::clear\<close> resets the three fields to their value-initialised state.\<close>

definition clear :: "('a::zero) token \<Rightarrow> 'a token" where
  "clear t = t\<lparr>tk_type := unknown, tk_text := [], tk_number := 0\<rparr>"

section \<open>Character classes of the C library\<close>

text \<open>
  \<^verbatim>\<open>isspace\<close> and \<^verbatim>\<open>isdigit\<close> of \<^verbatim>\<open>cctype\<close> in the "C" locale: the white-space
  characters are the space and the control characters 9 to 13 (tab, line feed, vertical
  tab, form feed, carriage return); the digits are \<^verbatim>\<open>0\<close> to \<^verbatim>\<open>9\<close>. A character above
  127 is in neither class.
\<close>

definition isspace :: "char \<Rightarrow> bool" where
  "isspace c = (of_char c = (32::nat) \<or> ((9::nat) \<le> of_char c \<and> of_char c \<le> (13::nat)))"

definition isdigit :: "char \<Rightarrow> bool" where
  "isdigit c = ((48::nat) \<le> of_char c \<and> of_char c \<le> (57::nat))"

section \<open>The tokenizer\<close>

record 'a tokenizer =
  tz_src :: string
  tz_tokens :: "'a token list"
  tz_error :: bool

text \<open>The constructor \<^verbatim>\<open>tokenizer::tokenizer(const string&)\<close>.\<close>

definition tokenizer_init :: "string \<Rightarrow> 'a tokenizer" where
  "tokenizer_init src_text = \<lparr>tz_src = src_text, tz_tokens = [], tz_error = False\<rparr>"

definition is_value :: "char \<Rightarrow> bool" where
  "is_value c = (isdigit c \<or> c = CHR ''.'')"

text \<open>\<^verbatim>\<open>tokenizer::is_operator(char)\<close>; the evaluator has a member of the same name on tokens.\<close>

definition is_operator_char :: "char \<Rightarrow> bool" where
  "is_operator_char c =
     (c = CHR ''+'' \<or> c = CHR ''-'' \<or> c = CHR ''*'' \<or> c = CHR ''/'' \<or>
      c = CHR ''('' \<or> c = CHR '')'')"

text \<open>
  The counters of \<^verbatim>\<open>verify_tokenlist\<close> are of type \<^verbatim>\<open>int\<close>: 32-bit machine integers,
  incremented with wrap-around.
\<close>

record counters =
  numbers_count :: "32 word"
  operations_count :: "32 word"
  open_brackets_count :: "32 word"
  close_brackets_count :: "32 word"

definition counters_init :: counters where
  "counters_init =
     \<lparr>numbers_count = 0, operations_count = 0,
      open_brackets_count = 0, close_brackets_count = 0\<rparr>"

text \<open>The \<^verbatim>\<open>switch\<close> in the loop of \<^verbatim>\<open>verify_tokenlist\<close>, on one token.\<close>

fun count_token :: "'a token \<Rightarrow> counters \<times> bool \<Rightarrow> counters \<times> bool" where
  "count_token t (c, error) =
     (case tk_type t of
        number \<Rightarrow> (c\<lparr>numbers_count := numbers_count c + 1\<rparr>, error)
      | open_bracket \<Rightarrow> (c\<lparr>open_brackets_count := open_brackets_count c + 1\<rparr>, error)
      | close_bracket \<Rightarrow> (c\<lparr>close_brackets_count := close_brackets_count c + 1\<rparr>, error)
      | op_add \<Rightarrow> (c\<lparr>operations_count := operations_count c + 1\<rparr>, error)
      | op_sub \<Rightarrow> (c\<lparr>operations_count := operations_count c + 1\<rparr>, error)
      | op_mul \<Rightarrow> (c\<lparr>operations_count := operations_count c + 1\<rparr>, error)
      | op_div \<Rightarrow> (c\<lparr>operations_count := operations_count c + 1\<rparr>, error)
      | unknown \<Rightarrow> (c, True))"

fun count_tokens :: "'a token list \<Rightarrow> counters \<times> bool \<Rightarrow> counters \<times> bool" where
  "count_tokens [] s = s"
| "count_tokens (t # ts) s = count_tokens ts (count_token t s)"

definition verify_tokenlist :: "'a tokenizer \<Rightarrow> 'a tokenizer" where
  "verify_tokenlist tz =
     (if tz_error tz then tz
      else
        let (c, error1) = count_tokens (tz_tokens tz) (counters_init, tz_error tz);
            error2 = (if open_brackets_count c \<noteq> close_brackets_count c then True else error1);
            error3 = (if numbers_count c \<noteq> operations_count c + 1 then True else error2)
        in tz\<lparr>tz_error := error3\<rparr>)"

text \<open>
  The pending token is pushed when its type is not \<open>unknown\<close>, after its number has been
  read from its text when it is a number (\<^verbatim>\<open>atof\<close> of the C library, a parameter of the
  model). The same four lines stand in the loop of \<^verbatim>\<open>parse\<close> and after it.
\<close>

definition push_pending :: "(string \<Rightarrow> 'a) \<Rightarrow> 'a token \<Rightarrow> 'a token list \<Rightarrow> 'a token list" where
  "push_pending atof t tokens =
     (if tk_type t \<noteq> unknown
      then tokens @ [if tk_type t = number then t\<lparr>tk_number := atof (tk_text t)\<rparr> else t]
      else tokens)"

text \<open>The six assignments that give the type of an operator or bracket token.\<close>

definition rune_type :: "char \<Rightarrow> token_type \<Rightarrow> token_type" where
  "rune_type rune ty0 =
     (let ty1 = (if rune = CHR ''+'' then op_add else ty0);
          ty2 = (if rune = CHR ''-'' then op_sub else ty1);
          ty3 = (if rune = CHR ''*'' then op_mul else ty2);
          ty4 = (if rune = CHR ''/'' then op_div else ty3);
          ty5 = (if rune = CHR ''('' then open_bracket else ty4);
          ty6 = (if rune = CHR '')'' then close_bracket else ty5)
      in ty6)"

text \<open>
  The loop of \<^verbatim>\<open>parse\<close> over the characters of the source, on the state made of the
  pending token \<open>t\<close>, the token list and the error flag. The \<^verbatim>\<open>break\<close> at a character
  of no class leaves the loop with the rest of the input unread.
\<close>

fun read_tokens ::
  "(string \<Rightarrow> 'a) \<Rightarrow> string \<Rightarrow> ('a::zero) token \<times> 'a token list \<times> bool
     \<Rightarrow> 'a token \<times> 'a token list \<times> bool" where
  "read_tokens atof [] s = s"
| "read_tokens atof (rune # rest) (t, tokens, error) =
     (if isspace rune then read_tokens atof rest (t, tokens, error)
      else if is_value rune then
        read_tokens atof rest
          (t\<lparr>tk_type := number, tk_text := tk_text t @ [rune]\<rparr>, tokens, error)
      else if is_operator_char rune then
        (let tokens1 = push_pending atof t tokens;
             t1 = clear t;
             t2 = t1\<lparr>tk_type := rune_type rune (tk_type t1)\<rparr>;
             t3 = t2\<lparr>tk_text := tk_text t2 @ [rune]\<rparr>
         in read_tokens atof rest (clear t3, tokens1 @ [t3], error))
      else (t, tokens, True))"

definition parse :: "(string \<Rightarrow> 'a) \<Rightarrow> ('a::zero) tokenizer \<Rightarrow> 'a tokenizer" where
  "parse atof tz =
     (let (t, tokens, error) = read_tokens atof (tz_src tz) (token_init, tz_tokens tz, tz_error tz)
      in verify_tokenlist (tz\<lparr>tz_tokens := push_pending atof t tokens, tz_error := error\<rparr>))"

section \<open>The evaluator\<close>

record 'a eval =
  ev_tokens :: "'a token list"
  ev_error :: bool
  ev_result :: 'a

text \<open>
  The constructors \<^verbatim>\<open>eval::eval(const token_list&)\<close> and \<^verbatim>\<open>eval::eval(const tokenizer&)\<close>:
  the second copies the tokens of the tokenizer.
\<close>

definition eval_init :: "'a token list \<Rightarrow> ('a::zero) eval" where
  "eval_init t = \<lparr>ev_tokens = t, ev_error = False, ev_result = 0\<rparr>"

definition eval_of_tokenizer :: "'a tokenizer \<Rightarrow> ('a::zero) eval" where
  "eval_of_tokenizer tk = eval_init (tz_tokens tk)"

definition precedence :: "'a token \<Rightarrow> int" where
  "precedence tk =
     (case tk_type tk of
        op_add \<Rightarrow> 10 | op_sub \<Rightarrow> 10
      | op_mul \<Rightarrow> 20 | op_div \<Rightarrow> 20
      | _ \<Rightarrow> - 1)"

definition is_number :: "'a token \<Rightarrow> bool" where
  "is_number tk = (tk_type tk = number)"

definition is_operator :: "'a token \<Rightarrow> bool" where
  "is_operator tk =
     (if tk_type tk = op_add then True
      else if tk_type tk = op_sub then True
      else if tk_type tk = op_mul then True
      else if tk_type tk = op_div then True
      else False)"

definition is_open_bracket :: "'a token \<Rightarrow> bool" where
  "is_open_bracket tk = (tk_type tk = open_bracket)"

definition is_close_bracket :: "'a token \<Rightarrow> bool" where
  "is_close_bracket tk = (tk_type tk = close_bracket)"

definition is_bracket :: "'a token \<Rightarrow> bool" where
  "is_bracket tk =
     (if is_open_bracket tk then True
      else if is_close_bracket tk then True
      else False)"

fun check_infix_for_brackets :: "'a token list \<Rightarrow> bool" where
  "check_infix_for_brackets [] = False"
| "check_infix_for_brackets (tk # rest) =
     (if is_bracket tk then True else check_infix_for_brackets rest)"

text \<open>
  A \<^verbatim>\<open>std::stack\<close> is modelled as a list whose head is the top (\<open>tp\<close> in the
  patterns): \<^verbatim>\<open>push\<close> is \<open>#\<close>, \<^verbatim>\<open>top\<close> the head and \<^verbatim>\<open>pop\<close> the tail. The output vector grows at its end.

  \<open>pop_all\<close> is the loop \<^verbatim>\<open>while (not op_stack.empty())\<close> that moves every element of
  the stack to the output; it stands twice in \<^verbatim>\<open>to_postfix\<close>. It returns the output and
  the stack.
\<close>

fun pop_all :: "'a token list \<Rightarrow> 'a token list \<Rightarrow> 'a token list \<times> 'a token list" where
  "pop_all output [] = (output, [])"
| "pop_all output (tp # op_stack) = pop_all (output @ [tp]) op_stack"

text \<open>The loop run at a closing bracket.\<close>

fun pop_to_open :: "'a token list \<Rightarrow> 'a token list \<Rightarrow> 'a token list \<times> 'a token list" where
  "pop_to_open output [] = (output, [])"
| "pop_to_open output (tp # op_stack) =
     (if is_open_bracket tp then (output, op_stack)
      else pop_to_open (if \<not> is_bracket tp then output @ [tp] else output) op_stack)"

text \<open>
  The body of the main loop of \<^verbatim>\<open>to_postfix\<close> for an operator \<open>tk\<close>, on the output and
  the operator stack.
\<close>

definition push_operator ::
  "'a token \<Rightarrow> 'a token list \<times> 'a token list \<Rightarrow> 'a token list \<times> 'a token list" where
  "push_operator tk s =
     (let (output, op_stack) = s in
      if op_stack = [] then (output, tk # op_stack)
      else if is_bracket (hd op_stack) then (output, tk # op_stack)
      else if precedence tk > precedence (hd op_stack) then (output, tk # op_stack)
      else (let (output1, op_stack1) = pop_all output op_stack in (output1, tk # op_stack1)))"

text \<open>
  The main loop of \<^verbatim>\<open>to_postfix\<close> on the output, the operator stack and the error
  flag; a token that is neither a number, an operator nor a bracket sets the flag and
  leaves the loop.
\<close>

fun postfix_loop ::
  "'a token list \<Rightarrow> 'a token list \<times> 'a token list \<times> bool
     \<Rightarrow> 'a token list \<times> 'a token list \<times> bool" where
  "postfix_loop [] s = s"
| "postfix_loop (tk # input) (output, op_stack, error) =
     (if is_number tk then postfix_loop input (output @ [tk], op_stack, error)
      else if is_operator tk then
        (let (output1, op_stack1) = push_operator tk (output, op_stack)
         in postfix_loop input (output1, op_stack1, error))
      else if is_bracket tk \<and> is_open_bracket tk then
        postfix_loop input (output, tk # op_stack, error)
      else if is_bracket tk \<and> is_close_bracket tk then
        (let (output1, op_stack1) = pop_to_open output op_stack
         in postfix_loop input (output1, op_stack1, error))
      else (output, op_stack, True))"

definition to_postfix :: "'a eval \<Rightarrow> 'a eval" where
  "to_postfix ev =
     (let (output, op_stack, error) = postfix_loop (ev_tokens ev) ([], [], ev_error ev);
          (output1, op_stack1) = pop_all output op_stack;
          ev1 = ev\<lparr>ev_tokens := output1, ev_error := error\<rparr>
      in if check_infix_for_brackets (ev_tokens ev1) then ev1\<lparr>ev_error := True\<rparr> else ev1)"

text \<open>
  \<^verbatim>\<open>top\<close> and \<^verbatim>\<open>pop\<close> of an empty \<^verbatim>\<open>std::stack\<close> are undefined behaviour. The model
  makes it a value: a run that reaches one returns the fault.
\<close>

datatype fault = empty_stack_access

text \<open>
  The loop of \<^verbatim>\<open>solve\<close> on the stack of numbers and the error flag. At an operator it
  reads \<open>y\<close> from the top, pops, reads \<open>x\<close> from the top and pops, so it needs two
  elements. The token \<open>tr\<close> it pushes is a fresh token whose type is set to \<open>number\<close>.
\<close>

fun solve_loop ::
  "('a::{zero,plus,minus,times,inverse}) token list \<Rightarrow> 'a token list \<times> bool
     \<Rightarrow> fault + 'a token list \<times> bool" where
  "solve_loop [] s = Inr s"
| "solve_loop (tk # rest) (nums, error) =
     (if is_number tk then solve_loop rest (tk # nums, error)
      else if is_operator tk then
        (case nums of
           [] \<Rightarrow> Inl empty_stack_access
         | [ty] \<Rightarrow> Inl empty_stack_access
         | ty # tx # nums2 \<Rightarrow>
             (let y = tk_number ty; x = tk_number tx;
                  tr = token_init\<lparr>tk_type := number\<rparr>
              in case tk_type tk of
                   op_add \<Rightarrow> solve_loop rest (tr\<lparr>tk_number := x + y\<rparr> # nums2, error)
                 | op_sub \<Rightarrow> solve_loop rest (tr\<lparr>tk_number := x - y\<rparr> # nums2, error)
                 | op_mul \<Rightarrow> solve_loop rest (tr\<lparr>tk_number := x * y\<rparr> # nums2, error)
                 | op_div \<Rightarrow> solve_loop rest (tr\<lparr>tk_number := x / y\<rparr> # nums2, error)
                 | _ \<Rightarrow> solve_loop rest (nums2, error)))
      else Inr (nums, True))"

text \<open>
  \<^verbatim>\<open>solve\<close>: the rewrite, then (when the flag is unset) the loop, then the read of the
  top of the stack of numbers into the result.
\<close>

definition solve :: "('a::{zero,plus,minus,times,inverse}) eval \<Rightarrow> fault + 'a eval" where
  "solve ev =
     (let ev1 = to_postfix ev in
      if ev_error ev1 then Inr ev1
      else
        case solve_loop (ev_tokens ev1) ([], ev_error ev1) of
          Inl f \<Rightarrow> Inl f
        | Inr (nums, error) \<Rightarrow>
            (case nums of
               [] \<Rightarrow> Inl empty_stack_access
             | tp # _ \<Rightarrow> Inr (ev1\<lparr>ev_error := error, ev_result := tk_number tp\<rparr>)))"

section \<open>Reading decimal numbers\<close>

text \<open>
  \<^verbatim>\<open>atof\<close> belongs to the C library. On the texts the tokenizer builds (digits and
  decimal points only) it reads the longest prefix of the form digits, then optionally
  a point and digits, and returns zero when that prefix holds no digit. \<open>atof_exact\<close>
  is this reading with the exact decimal value as a real number, without the rounding to
  the nearest \<^verbatim>\<open>double\<close>; it is used for the concrete runs below, whose numbers are small
  integers, on which binary64 arithmetic is exact. None of these runs divides by zero,
  where the reals of HOL and binary64 differ.
\<close>

definition digit_value :: "char \<Rightarrow> nat" where
  "digit_value c = of_char c - 48"

definition decimal :: "string \<Rightarrow> nat" where
  "decimal ds = foldl (\<lambda>n c. 10 * n + digit_value c) 0 ds"

definition atof_exact :: "string \<Rightarrow> real" where
  "atof_exact s =
     (let ip = takeWhile isdigit s;
          r = dropWhile isdigit s;
          fp = (case r of [] \<Rightarrow> [] | c # r1 \<Rightarrow> if c = CHR ''.'' then takeWhile isdigit r1 else [])
      in of_nat (decimal ip) + of_nat (decimal fp) / 10 ^ length fp)"

section \<open>A reference evaluation with the textbook rule\<close>

text \<open>
  The rule of the textbook algorithm, which the specification sets against the code: at
  an operator, only the operators on top of the stack whose precedence is greater than
  or equal to the current one's are moved to the output, up to the first bracket or
  lower operator; then the current operator is pushed. \<open>reference_solve\<close> is \<open>solve\<close>
  with this rule in place of \<open>push_operator\<close>, everything else unchanged.
\<close>

fun reference_pop ::
  "'a token \<Rightarrow> 'a token list \<Rightarrow> 'a token list \<Rightarrow> 'a token list \<times> 'a token list" where
  "reference_pop tk output [] = (output, [])"
| "reference_pop tk output (tp # op_stack) =
     (if is_operator tp \<and> precedence tp \<ge> precedence tk
      then reference_pop tk (output @ [tp]) op_stack
      else (output, tp # op_stack))"

fun reference_postfix_loop ::
  "'a token list \<Rightarrow> 'a token list \<times> 'a token list \<times> bool
     \<Rightarrow> 'a token list \<times> 'a token list \<times> bool" where
  "reference_postfix_loop [] s = s"
| "reference_postfix_loop (tk # input) (output, op_stack, error) =
     (if is_number tk then reference_postfix_loop input (output @ [tk], op_stack, error)
      else if is_operator tk then
        (let (output1, op_stack1) = reference_pop tk output op_stack
         in reference_postfix_loop input (output1, tk # op_stack1, error))
      else if is_open_bracket tk then
        reference_postfix_loop input (output, tk # op_stack, error)
      else if is_close_bracket tk then
        (let (output1, op_stack1) = pop_to_open output op_stack
         in reference_postfix_loop input (output1, op_stack1, error))
      else (output, op_stack, True))"

definition reference_to_postfix :: "'a eval \<Rightarrow> 'a eval" where
  "reference_to_postfix ev =
     (let (output, op_stack, error) = reference_postfix_loop (ev_tokens ev) ([], [], ev_error ev);
          (output1, op_stack1) = pop_all output op_stack;
          ev1 = ev\<lparr>ev_tokens := output1, ev_error := error\<rparr>
      in if check_infix_for_brackets (ev_tokens ev1) then ev1\<lparr>ev_error := True\<rparr> else ev1)"

definition reference_solve :: "('a::{zero,plus,minus,times,inverse}) eval \<Rightarrow> fault + 'a eval" where
  "reference_solve ev =
     (let ev1 = reference_to_postfix ev in
      if ev_error ev1 then Inr ev1
      else
        case solve_loop (ev_tokens ev1) ([], ev_error ev1) of
          Inl f \<Rightarrow> Inl f
        | Inr (nums, error) \<Rightarrow>
            (case nums of
               [] \<Rightarrow> Inl empty_stack_access
             | tp # _ \<Rightarrow> Inr (ev1\<lparr>ev_error := error, ev_result := tk_number tp\<rparr>)))"

section \<open>Counting tokens by kind\<close>

text \<open>The number of tokens of a kind in a token sequence, and the number of operators.\<close>

definition count_kind :: "token_type \<Rightarrow> 'a token list \<Rightarrow> nat" where
  "count_kind ty ts = length (filter (\<lambda>t. tk_type t = ty) ts)"

definition count_operators :: "'a token list \<Rightarrow> nat" where
  "count_operators ts =
     count_kind op_add ts + count_kind op_sub ts + count_kind op_mul ts + count_kind op_div ts"

text \<open>The characters the tokenizer accepts.\<close>

definition lexable :: "char \<Rightarrow> bool" where
  "lexable c = (isspace c \<or> is_value c \<or> is_operator_char c)"

section \<open>Properties of tokens used in the statements\<close>

text \<open>No character of the text of a token is white space.\<close>

definition text_clean :: "'a token \<Rightarrow> bool" where
  "text_clean t = (\<forall>c\<in>set (tk_text t). \<not> isspace c)"

text \<open>The number of tokens the pending token of \<open>parse\<close> still stands for: one or none.\<close>

definition pending :: "'a token \<Rightarrow> nat" where
  "pending t = (if tk_type t \<noteq> unknown then 1 else 0)"

section \<open>Unfolding the definitions on concrete runs\<close>

lemmas lex_defs =
  parse_def tokenizer_init_def token_init_def isspace_def is_value_def isdigit_def
  is_operator_char_def push_pending_def clear_def rune_type_def verify_tokenlist_def
  counters_init_def atof_exact_def decimal_def digit_value_def

lemmas ev_defs =
  solve_def to_postfix_def eval_of_tokenizer_def eval_init_def push_operator_def
  is_number_def is_operator_def is_bracket_def is_open_bracket_def is_close_bracket_def
  precedence_def

section \<open>The rewrite to postfix notation\<close>

lemma pop_all_eq: "pop_all out stk = (out @ stk, [])"
  by (induction stk arbitrary: out) simp_all

lemma is_operator_iff:
  "is_operator tk \<longleftrightarrow> tk_type tk \<in> {op_add, op_sub, op_mul, op_div}"
  by (simp add: is_operator_def)

lemma is_bracket_iff:
  "is_bracket tk \<longleftrightarrow> tk_type tk \<in> {open_bracket, close_bracket}"
  by (auto simp add: is_bracket_def is_open_bracket_def is_close_bracket_def)

lemma operator_not_number: "is_operator tk \<Longrightarrow> \<not> is_number tk"
  by (auto simp add: is_operator_iff is_number_def)

lemma push_operator_compare:
  assumes "stk \<noteq> []" and "\<not> is_bracket (hd stk)"
  shows "push_operator tk (out, stk) =
           (if precedence tk > precedence (hd stk) then (out, tk # stk)
            else (out @ stk, [tk]))"
  using assms by (simp add: push_operator_def pop_all_eq)

text \<open>
  Claim C1. In the loop of \<open>to_postfix\<close>, at an operator \<open>tk\<close>, with a stack that is not
  empty and whose top (the head of \<open>stk\<close>) is not a bracket: when the precedence of \<open>tk\<close>
  is strictly greater than the precedence of the top, \<open>tk\<close> is pushed and the loop goes
  on; otherwise the whole stack, whatever it holds, goes to the end of the output in the
  order of the pops (top first), and the stack that the loop goes on with holds \<open>tk\<close>
  alone. The precedence of an operator is 20 for \<open>op_mul\<close> and \<open>op_div\<close> and 10 for
  \<open>op_add\<close> and \<open>op_sub\<close>.
\<close>

theorem to_postfix_operator_step:
  assumes "is_operator tk" and "stk \<noteq> []" and "\<not> is_bracket (hd stk)"
  shows "postfix_loop (tk # input) (out, stk, error) =
           (if precedence tk > precedence (hd stk)
            then postfix_loop input (out, tk # stk, error)
            else postfix_loop input (out @ stk, [tk], error))
         \<and> precedence tk = (if tk_type tk = op_mul \<or> tk_type tk = op_div then 20 else 10)"
proof
  show "postfix_loop (tk # input) (out, stk, error) =
           (if precedence tk > precedence (hd stk)
            then postfix_loop input (out, tk # stk, error)
            else postfix_loop input (out @ stk, [tk], error))"
    using assms by (simp add: operator_not_number push_operator_compare)
  show "precedence tk = (if tk_type tk = op_mul \<or> tk_type tk = op_div then 20 else 10)"
    using assms(1) by (auto simp add: is_operator_iff precedence_def)
qed

text \<open>
  The step at \<open>+\<close> with the stack \<open>*\<close>, \<open>(\<close> (top first): the precedence 10 is not
  greater than 20, so the operator and the bracket below it both go to the output.
\<close>

theorem to_postfix_operator_step_witness:
  "postfix_loop [\<lparr>tk_type = op_add, tk_text = ''+'', tk_number = 0::real\<rparr>]
     ([\<lparr>tk_type = number, tk_text = ''1'', tk_number = 1\<rparr>],
      [\<lparr>tk_type = op_mul, tk_text = ''*'', tk_number = 0\<rparr>,
       \<lparr>tk_type = open_bracket, tk_text = ''('', tk_number = 0\<rparr>], False) =
     ([\<lparr>tk_type = number, tk_text = ''1'', tk_number = 1\<rparr>,
       \<lparr>tk_type = op_mul, tk_text = ''*'', tk_number = 0\<rparr>,
       \<lparr>tk_type = open_bracket, tk_text = ''('', tk_number = 0\<rparr>],
      [\<lparr>tk_type = op_add, tk_text = ''+'', tk_number = 0\<rparr>], False)
   \<and> precedence \<lparr>tk_type = op_add, tk_text = ''+'', tk_number = 0::real\<rparr> = 10"
  using to_postfix_operator_step
    [of "\<lparr>tk_type = op_add, tk_text = ''+'', tk_number = 0::real\<rparr>"
        "[\<lparr>tk_type = op_mul, tk_text = ''*'', tk_number = 0\<rparr>,
          \<lparr>tk_type = open_bracket, tk_text = ''('', tk_number = 0\<rparr>]"
        "[]" "[\<lparr>tk_type = number, tk_text = ''1'', tk_number = 1\<rparr>]" False]
  by (simp add: is_operator_def is_bracket_def is_open_bracket_def is_close_bracket_def
      precedence_def)

section \<open>Concrete runs\<close>

text \<open>
  Claim C10. \<open>parse\<close> on the tokenizer of the empty string sets the error flag: no token
  is read, and zero numbers are not zero operators plus one. This holds whatever \<open>atof\<close>
  is.
\<close>

theorem parse_empty: "tz_error (parse atof (tokenizer_init ''''))"
  by (simp add: parse_def tokenizer_init_def token_init_def push_pending_def
      verify_tokenlist_def counters_init_def)

text \<open>
  Claim C5. The tokens of \<open>2+3*4\<close> are the number 2, \<open>+\<close>, the number 3, \<open>*\<close> and the
  number 4, the tokenizer reports no error, and \<open>solve\<close> ends without error with the
  result 14 (on the postfix sequence 2, 3, 4, \<open>*\<close>, \<open>+\<close>). For \<open>(2+3)*4\<close> the tokenizer
  reports no error and \<open>solve\<close> ends without error with the result 20.
\<close>

theorem solve_examples:
  "tz_tokens (parse atof_exact (tokenizer_init ''2+3*4'')) =
     [\<lparr>tk_type = number, tk_text = ''2'', tk_number = 2\<rparr>,
      \<lparr>tk_type = op_add, tk_text = ''+'', tk_number = 0\<rparr>,
      \<lparr>tk_type = number, tk_text = ''3'', tk_number = 3\<rparr>,
      \<lparr>tk_type = op_mul, tk_text = ''*'', tk_number = 0\<rparr>,
      \<lparr>tk_type = number, tk_text = ''4'', tk_number = 4\<rparr>]
   \<and> \<not> tz_error (parse atof_exact (tokenizer_init ''2+3*4''))
   \<and> solve (eval_of_tokenizer (parse atof_exact (tokenizer_init ''2+3*4''))) =
      Inr \<lparr>ev_tokens =
            [\<lparr>tk_type = number, tk_text = ''2'', tk_number = 2\<rparr>,
             \<lparr>tk_type = number, tk_text = ''3'', tk_number = 3\<rparr>,
             \<lparr>tk_type = number, tk_text = ''4'', tk_number = 4\<rparr>,
             \<lparr>tk_type = op_mul, tk_text = ''*'', tk_number = 0\<rparr>,
             \<lparr>tk_type = op_add, tk_text = ''+'', tk_number = 0\<rparr>],
           ev_error = False, ev_result = 14\<rparr>
   \<and> \<not> tz_error (parse atof_exact (tokenizer_init ''(2+3)*4''))
   \<and> solve (eval_of_tokenizer (parse atof_exact (tokenizer_init ''(2+3)*4''))) =
      Inr \<lparr>ev_tokens =
            [\<lparr>tk_type = number, tk_text = ''2'', tk_number = 2\<rparr>,
             \<lparr>tk_type = number, tk_text = ''3'', tk_number = 3\<rparr>,
             \<lparr>tk_type = op_add, tk_text = ''+'', tk_number = 0\<rparr>,
             \<lparr>tk_type = number, tk_text = ''4'', tk_number = 4\<rparr>,
             \<lparr>tk_type = op_mul, tk_text = ''*'', tk_number = 0\<rparr>],
           ev_error = False, ev_result = 20\<rparr>"
  by (simp add: lex_defs ev_defs)

text \<open>
  Claim C2 says that a token sequence accepted by the tokenizer never brings the loop of
  \<open>solve\<close> to an operator with fewer than two numbers on the stack. The input
  \<open>(+)1(2)\<close> is accepted (two numbers, one operator, two brackets of each kind), its
  rewrite sets no error and gives the sequence \<open>+\<close>, 1, 2, and the loop of \<open>solve\<close> meets
  the operator on the empty stack: the run ends in the fault.
\<close>

theorem solve_underflow:
  "\<not> tz_error (parse atof_exact (tokenizer_init ''(+)1(2)''))
   \<and> \<not> ev_error (to_postfix (eval_of_tokenizer (parse atof_exact (tokenizer_init ''(+)1(2)''))))
   \<and> map tk_type
        (ev_tokens (to_postfix (eval_of_tokenizer (parse atof_exact (tokenizer_init ''(+)1(2)'')))))
      = [op_add, number, number]
   \<and> solve_loop
        (ev_tokens (to_postfix (eval_of_tokenizer (parse atof_exact (tokenizer_init ''(+)1(2)'')))))
        ([], False) = Inl empty_stack_access
   \<and> solve (eval_of_tokenizer (parse atof_exact (tokenizer_init ''(+)1(2)''))) =
      Inl empty_stack_access"
  by (simp add: lex_defs ev_defs)

section \<open>The check after the rewrite\<close>

lemma check_infix_for_brackets_iff:
  "check_infix_for_brackets ts \<longleftrightarrow> (\<exists>t\<in>set ts. is_bracket t)"
  by (induction ts) simp_all

lemma to_postfix_checked:
  "ev_error (to_postfix ev) \<or> \<not> check_infix_for_brackets (ev_tokens (to_postfix ev))"
  by (simp add: to_postfix_def Let_def split: prod.splits)

lemma solve_tokens:
  assumes "solve ev = Inr ev'"
  shows "ev_tokens ev' = ev_tokens (to_postfix ev)"
  using assms
  by (auto simp add: solve_def Let_def split: if_splits sum.splits prod.splits list.splits)

lemma solve_error_mono:
  assumes "solve ev = Inr ev'" and "\<not> ev_error ev'"
  shows "\<not> ev_error (to_postfix ev)"
  using assms
  by (auto simp add: solve_def Let_def split: if_splits sum.splits prod.splits list.splits)

text \<open>
  Claim C6. When the token sequence that \<open>to_postfix\<close> leaves holds a bracket (open or
  close), \<open>to_postfix\<close> leaves the error flag set. Hence, when \<open>solve\<close> returns the
  evaluator \<open>ev'\<close> with the error flag unset, the tokens of \<open>ev'\<close> are the postfix sequence
  that \<open>to_postfix\<close> built and the loop evaluated, and none of them is a bracket.
\<close>

theorem postfix_has_no_bracket:
  "((\<exists>t\<in>set (ev_tokens (to_postfix ev)). is_bracket t) \<longrightarrow> ev_error (to_postfix ev))
   \<and> (solve ev = Inr ev' \<and> \<not> ev_error ev' \<longrightarrow>
        ev_tokens ev' = ev_tokens (to_postfix ev) \<and> (\<forall>t\<in>set (ev_tokens ev'). \<not> is_bracket t))"
proof (intro conjI impI)
  assume "\<exists>t\<in>set (ev_tokens (to_postfix ev)). is_bracket t"
  then show "ev_error (to_postfix ev)"
    using to_postfix_checked [of ev] by (simp add: check_infix_for_brackets_iff)
next
  assume a: "solve ev = Inr ev' \<and> \<not> ev_error ev'"
  then show t: "ev_tokens ev' = ev_tokens (to_postfix ev)"
    by (simp add: solve_tokens)
  from a have "\<not> ev_error (to_postfix ev)"
    using solve_error_mono by blast
  then have "\<not> check_infix_for_brackets (ev_tokens (to_postfix ev))"
    using to_postfix_checked [of ev] by simp
  then show "\<forall>t\<in>set (ev_tokens ev'). \<not> is_bracket t"
    unfolding t by (simp add: check_infix_for_brackets_iff)
qed

text \<open>
  The source \<open>)2(\<close> passes the tokenizer (one bracket of each kind, one number) and its
  rewrite leaves the open bracket in the output: the flag is set. The source \<open>(2+3)*4\<close>
  is solved without error, and its postfix sequence holds no bracket.
\<close>

theorem postfix_has_no_bracket_witness:
  "\<not> tz_error (parse atof_exact (tokenizer_init '')2(''))
   \<and> ev_error (to_postfix (eval_of_tokenizer (parse atof_exact (tokenizer_init '')2(''))))
   \<and> solve (eval_of_tokenizer (parse atof_exact (tokenizer_init ''(2+3)*4''))) =
       Inr \<lparr>ev_tokens =
        [\<lparr>tk_type = number, tk_text = ''2'', tk_number = 2\<rparr>,
         \<lparr>tk_type = number, tk_text = ''3'', tk_number = 3\<rparr>,
         \<lparr>tk_type = op_add, tk_text = ''+'', tk_number = 0\<rparr>,
         \<lparr>tk_type = number, tk_text = ''4'', tk_number = 4\<rparr>,
         \<lparr>tk_type = op_mul, tk_text = ''*'', tk_number = 0\<rparr>],
        ev_error = False, ev_result = 20\<rparr>
   \<and> list_all (\<lambda>t. \<not> is_bracket t)
        (ev_tokens (to_postfix (eval_of_tokenizer (parse atof_exact (tokenizer_init ''(2+3)*4'')))))"
proof -
  let ?bad = "eval_of_tokenizer (parse atof_exact (tokenizer_init '')2(''))"
  let ?ev = "eval_of_tokenizer (parse atof_exact (tokenizer_init ''(2+3)*4''))"
  let ?ev' = "\<lparr>ev_tokens =
        [\<lparr>tk_type = number, tk_text = ''2'', tk_number = 2::real\<rparr>,
         \<lparr>tk_type = number, tk_text = ''3'', tk_number = 3\<rparr>,
         \<lparr>tk_type = op_add, tk_text = ''+'', tk_number = 0\<rparr>,
         \<lparr>tk_type = number, tk_text = ''4'', tk_number = 4\<rparr>,
         \<lparr>tk_type = op_mul, tk_text = ''*'', tk_number = 0\<rparr>],
        ev_error = False, ev_result = 20\<rparr>"
  have p: "\<not> tz_error (parse atof_exact (tokenizer_init '')2(''))"
    by (simp add: lex_defs)
  have b: "\<exists>t\<in>set (ev_tokens (to_postfix ?bad)). is_bracket t"
    by (simp add: lex_defs ev_defs)
  have s: "solve ?ev = Inr ?ev'"
    by (simp add: lex_defs ev_defs)
  have e: "\<not> ev_error ?ev'"
    by simp
  have "ev_error (to_postfix ?bad)"
    using postfix_has_no_bracket [of ?bad] b by blast
  moreover have "\<forall>t\<in>set (ev_tokens (to_postfix ?ev)). \<not> is_bracket t"
    using postfix_has_no_bracket [of ?ev ?ev'] s e by metis
  ultimately show ?thesis
    using p s unfolding list_all_iff by blast
qed

section \<open>The evaluation of the postfix sequence\<close>

text \<open>
  Claim C7. At an operator, with \<open>ty\<close> on top of the stack of numbers and \<open>tx\<close> below it,
  the loop of \<open>solve\<close> takes the number of \<open>ty\<close>, popped first, as the right operand and
  the number of \<open>tx\<close>, popped second, as the left operand: it goes on with a fresh token
  of type \<open>number\<close> pushed in their place, whose number is \<open>tx + ty\<close>, \<open>tx - ty\<close>,
  \<open>tx * ty\<close> or \<open>tx / ty\<close>. The postfix sequence 10, 4, \<open>-\<close> leaves the number 6 on the
  stack, and \<open>solve\<close> on it gives the result 6 without error.
\<close>

theorem solve_operand_order:
  "(tk_type tk = op_add \<longrightarrow>
      solve_loop (tk # rest) (ty # tx # nums, error) =
      solve_loop rest
        (\<lparr>tk_type = number, tk_text = [], tk_number = tk_number tx + tk_number ty\<rparr> # nums, error))
   \<and> (tk_type tk = op_sub \<longrightarrow>
      solve_loop (tk # rest) (ty # tx # nums, error) =
      solve_loop rest
        (\<lparr>tk_type = number, tk_text = [], tk_number = tk_number tx - tk_number ty\<rparr> # nums, error))
   \<and> (tk_type tk = op_mul \<longrightarrow>
      solve_loop (tk # rest) (ty # tx # nums, error) =
      solve_loop rest
        (\<lparr>tk_type = number, tk_text = [], tk_number = tk_number tx * tk_number ty\<rparr> # nums, error))
   \<and> (tk_type tk = op_div \<longrightarrow>
      solve_loop (tk # rest) (ty # tx # nums, error) =
      solve_loop rest
        (\<lparr>tk_type = number, tk_text = [], tk_number = tk_number tx / tk_number ty\<rparr> # nums, error))
   \<and> solve_loop
        [\<lparr>tk_type = number, tk_text = ''10'', tk_number = 10::real\<rparr>,
         \<lparr>tk_type = number, tk_text = ''4'', tk_number = 4\<rparr>,
         \<lparr>tk_type = op_sub, tk_text = ''-'', tk_number = 0\<rparr>] ([], False) =
       Inr ([\<lparr>tk_type = number, tk_text = [], tk_number = 6\<rparr>], False)
   \<and> solve (eval_init
          [\<lparr>tk_type = number, tk_text = ''10'', tk_number = 10::real\<rparr>,
           \<lparr>tk_type = number, tk_text = ''4'', tk_number = 4\<rparr>,
           \<lparr>tk_type = op_sub, tk_text = ''-'', tk_number = 0\<rparr>]) =
       Inr \<lparr>ev_tokens =
             [\<lparr>tk_type = number, tk_text = ''10'', tk_number = 10\<rparr>,
              \<lparr>tk_type = number, tk_text = ''4'', tk_number = 4\<rparr>,
              \<lparr>tk_type = op_sub, tk_text = ''-'', tk_number = 0\<rparr>],
            ev_error = False, ev_result = 6\<rparr>"
  by (simp add: is_number_def is_operator_def token_init_def ev_defs)

text \<open>The division of 10 by 4 with 4 on top of the stack: the result is 10 / 4.\<close>

theorem solve_operand_order_witness:
  "solve_loop
     [\<lparr>tk_type = op_div, tk_text = ''/'', tk_number = 0::real\<rparr>]
     ([\<lparr>tk_type = number, tk_text = ''4'', tk_number = 4\<rparr>,
       \<lparr>tk_type = number, tk_text = ''10'', tk_number = 10\<rparr>], False) =
   Inr ([\<lparr>tk_type = number, tk_text = [], tk_number = 5 / 2\<rparr>], False)"
  using solve_operand_order
    [of "\<lparr>tk_type = op_div, tk_text = ''/'', tk_number = 0::real\<rparr>" "[]"
        "\<lparr>tk_type = number, tk_text = ''4'', tk_number = 4\<rparr>"
        "\<lparr>tk_type = number, tk_text = ''10'', tk_number = 10\<rparr>" "[]" False]
  by simp

section \<open>The flush rule against the reference\<close>

text \<open>
  The source \<open>1+2*3*4\<close>: the second \<open>*\<close> finds \<open>*\<close> on top of \<open>+\<close> and flushes both,
  so the code computes (1 + 2 * 3) * 4 = 28, where the reference computes
  1 + 2 * 3 * 4 = 25.
\<close>

lemma flush_example:
  "\<not> tz_error (parse atof_exact (tokenizer_init ''1+2*3*4''))
   \<and> map_sum id (\<lambda>ev. (ev_error ev, ev_result ev))
        (solve (eval_of_tokenizer (parse atof_exact (tokenizer_init ''1+2*3*4'')))) =
      Inr (False, 28)
   \<and> map_sum id (\<lambda>ev. (ev_error ev, ev_result ev))
        (reference_solve (eval_of_tokenizer (parse atof_exact (tokenizer_init ''1+2*3*4'')))) =
      Inr (False, 25)"
  by (simp add: lex_defs ev_defs reference_solve_def reference_to_postfix_def)

text \<open>
  Claim C8. There is a source that the tokenizer accepts and that \<open>solve\<close> evaluates
  without error to a result \<open>r\<close>, while the reference evaluation of the same tokens,
  with the textbook rule, ends without error with a different result \<open>r'\<close>.
\<close>

theorem flush_rule_differs_from_reference:
  "\<exists>src r r'.
     \<not> tz_error (parse atof_exact (tokenizer_init src))
     \<and> map_sum id (\<lambda>ev. (ev_error ev, ev_result ev))
          (solve (eval_of_tokenizer (parse atof_exact (tokenizer_init src)))) = Inr (False, r)
     \<and> map_sum id (\<lambda>ev. (ev_error ev, ev_result ev))
          (reference_solve (eval_of_tokenizer (parse atof_exact (tokenizer_init src)))) =
        Inr (False, r')
     \<and> r \<noteq> r'"
proof -
  have "(28::real) \<noteq> 25"
    by simp
  with flush_example show ?thesis
    by blast
qed

section \<open>The scan of the source\<close>

lemma tz_tokens_verify [simp]: "tz_tokens (verify_tokenlist tz) = tz_tokens tz"
  by (simp add: verify_tokenlist_def Let_def split: prod.splits)

lemma tz_error_verify: "tz_error tz \<Longrightarrow> tz_error (verify_tokenlist tz)"
  by (simp add: verify_tokenlist_def)

lemma read_tokens_stops:
  assumes "\<not> isspace c" and "\<not> is_value c" and "\<not> is_operator_char c"
  shows "read_tokens atof (pre @ c # post) s =
           (case read_tokens atof pre s of (t, tokens, error) \<Rightarrow> (t, tokens, True))"
  using assms
proof (induction pre arbitrary: s)
  case Nil
  then show ?case by (cases s) simp
next
  case (Cons a pre)
  then show ?case by (cases s) (simp add: Let_def)
qed

lemma value_not_space: "is_value d \<Longrightarrow> \<not> isspace d"
  by (auto simp add: is_value_def isdigit_def isspace_def)

lemma operator_char_class: "is_operator_char a \<Longrightarrow> \<not> isspace a \<and> \<not> is_value a"
  by (auto simp add: is_operator_char_def is_value_def isdigit_def isspace_def)

lemma read_tokens_values:
  assumes "\<forall>d\<in>set ds. is_value d" and "ds \<noteq> []"
  shows "read_tokens atof ds (t, tokens, error) =
           (t\<lparr>tk_type := number, tk_text := tk_text t @ ds\<rparr>, tokens, error)"
  using assms
proof (induction ds arbitrary: t)
  case Nil
  then show ?case by simp
next
  case (Cons d ds)
  then have d: "is_value d" "\<not> isspace d"
    by (simp_all add: value_not_space)
  show ?case
  proof (cases "ds = []")
    case True
    with d show ?thesis by simp
  next
    case False
    with Cons d show ?thesis by simp
  qed
qed

lemma read_tokens_append:
  assumes "\<forall>p\<in>set pre. lexable p"
  shows "read_tokens atof (pre @ rest) s = read_tokens atof rest (read_tokens atof pre s)"
  using assms
proof (induction pre arbitrary: s)
  case Nil
  then show ?case by simp
next
  case (Cons a pre)
  then show ?case by (cases s) (auto simp add: lexable_def Let_def)
qed

lemma read_tokens_after_operator:
  assumes "\<forall>p\<in>set pre. lexable p" and "pre = [] \<or> is_operator_char (last pre)"
  shows "fst (read_tokens atof pre (token_init, tokens, error)) = token_init"
proof (cases "pre = []")
  case True
  then show ?thesis by simp
next
  case False
  then have p: "pre = butlast pre @ [last pre]"
    by simp
  have op: "is_operator_char (last pre)"
    using assms(2) False by simp
  have "\<forall>p\<in>set (butlast pre). lexable p"
    using assms(1) by (meson in_set_butlastD)
  then have "read_tokens atof (butlast pre @ [last pre]) (token_init, tokens, error) =
      read_tokens atof [last pre] (read_tokens atof (butlast pre) (token_init, tokens, error))"
    by (rule read_tokens_append)
  moreover have "fst (read_tokens atof [last pre] s) = token_init" for s :: "'a token \<times> 'a token list \<times> bool"
    using operator_char_class [OF op] op
    by (cases s) (simp add: Let_def clear_def token_init_def)
  ultimately show ?thesis
    using p by metis
qed

text \<open>
  Claim C3 says that at a character of no class the pending token is not appended. In
  the code the \<^verbatim>\<open>break\<close> only leaves the loop, and the lines after the loop push the
  pending token: on \<open>2#\<close> the flag is set and the token sequence holds the number 2.
\<close>

theorem pending_number_appended_at_bad_character:
  "tz_error (parse atof_exact (tokenizer_init ''2#''))
   \<and> tz_tokens (parse atof_exact (tokenizer_init ''2#'')) =
       [\<lparr>tk_type = number, tk_text = ''2'', tk_number = 2\<rparr>]
   \<and> tz_tokens (parse atof_exact (tokenizer_init ''2#'')) \<noteq> []"
  by (simp add: lex_defs)

text \<open>
  Claim C3, amended. Let \<open>c\<close> be a character that is not white space, not a digit or
  decimal point and not one of the six operator and bracket characters. On a source
  \<open>pre @ c # post\<close>, \<open>parse\<close> sets the error flag, and its token sequence is the one of
  \<open>parse\<close> on \<open>pre\<close> alone: nothing of \<open>post\<close> is read. The number pending at \<open>c\<close> is
  finalized and appended: when a non-empty run \<open>ds\<close> of digits and decimal points stands
  before \<open>c\<close>, after a text \<open>pre\<close> that lexes without error and is empty or ends with
  an operator or bracket character, the token sequence is the one of \<open>pre\<close> followed by
  the number token with text \<open>ds\<close> and number \<open>atof ds\<close>.
\<close>

theorem parse_halts_at_bad_character:
  assumes "\<not> isspace c" and "\<not> is_value c" and "\<not> is_operator_char c"
  shows "tz_error (parse atof (tokenizer_init (pre @ c # post)))
         \<and> tz_tokens (parse atof (tokenizer_init (pre @ c # post))) =
             tz_tokens (parse atof (tokenizer_init pre))
         \<and> (ds \<noteq> [] \<and> (\<forall>d\<in>set ds. is_value d) \<and> (\<forall>p\<in>set pre. lexable p)
              \<and> (pre = [] \<or> is_operator_char (last pre)) \<longrightarrow>
            tz_tokens (parse atof (tokenizer_init (pre @ ds @ c # post))) =
              tz_tokens (parse atof (tokenizer_init pre)) @
              [\<lparr>tk_type = number, tk_text = ds, tk_number = atof ds\<rparr>])"
proof (intro conjI impI)
  show "tz_error (parse atof (tokenizer_init (pre @ c # post)))"
    using assms
    by (simp add: parse_def tokenizer_init_def read_tokens_stops tz_error_verify
        split: prod.splits)
  show "tz_tokens (parse atof (tokenizer_init (pre @ c # post))) =
          tz_tokens (parse atof (tokenizer_init pre))"
    using assms
    by (simp add: parse_def tokenizer_init_def read_tokens_stops split: prod.splits)
next
  assume a: "ds \<noteq> [] \<and> (\<forall>d\<in>set ds. is_value d) \<and> (\<forall>p\<in>set pre. lexable p)
      \<and> (pre = [] \<or> is_operator_char (last pre))"
  obtain t tokens error where
    r: "read_tokens atof pre (token_init, [], False) = (t, tokens, error)"
    by (metis prod_cases3)
  have t: "t = token_init"
    using read_tokens_after_operator [of pre atof "[]" False] a r by simp
  have "read_tokens atof (pre @ ds) (token_init, [], False) =
      read_tokens atof ds (token_init, tokens, error)"
    using read_tokens_append [of pre atof ds] a r t by simp
  then have v: "read_tokens atof (pre @ ds) (token_init, [], False) =
      (\<lparr>tk_type = number, tk_text = ds, tk_number = 0\<rparr>, tokens, error)"
    using read_tokens_values [of ds atof token_init tokens error] a
    by (simp add: token_init_def)
  have "read_tokens atof ((pre @ ds) @ c # post) (token_init, [], False) =
      (\<lparr>tk_type = number, tk_text = ds, tk_number = 0\<rparr>, tokens, True)"
    using read_tokens_stops [OF assms, of atof "pre @ ds" post] v by simp
  then have "tz_tokens (parse atof (tokenizer_init (pre @ ds @ c # post))) =
      tokens @ [\<lparr>tk_type = number, tk_text = ds, tk_number = atof ds\<rparr>]"
    by (simp add: parse_def tokenizer_init_def push_pending_def token_init_def)
  moreover have "tz_tokens (parse atof (tokenizer_init pre)) = tokens"
    using r t by (simp add: parse_def tokenizer_init_def push_pending_def token_init_def)
  ultimately show "tz_tokens (parse atof (tokenizer_init (pre @ ds @ c # post))) =
      tz_tokens (parse atof (tokenizer_init pre)) @
      [\<lparr>tk_type = number, tk_text = ds, tk_number = atof ds\<rparr>]"
    by simp
qed

text \<open>
  The source \<open>2+34#5\<close>: the flag is set, the number 34 pending at \<open>#\<close> is the last
  token, the 5 is not read, and the tokens are those of \<open>2+34\<close>.
\<close>

theorem parse_halts_at_bad_character_witness:
  "tz_error (parse atof_exact (tokenizer_init ''2+34#5''))
   \<and> tz_tokens (parse atof_exact (tokenizer_init ''2+34#5'')) =
       [\<lparr>tk_type = number, tk_text = ''2'', tk_number = 2\<rparr>,
        \<lparr>tk_type = op_add, tk_text = ''+'', tk_number = 0\<rparr>,
        \<lparr>tk_type = number, tk_text = ''34'', tk_number = 34\<rparr>]
   \<and> tz_tokens (parse atof_exact (tokenizer_init ''2+34'')) =
       [\<lparr>tk_type = number, tk_text = ''2'', tk_number = 2\<rparr>,
        \<lparr>tk_type = op_add, tk_text = ''+'', tk_number = 0\<rparr>,
        \<lparr>tk_type = number, tk_text = ''34'', tk_number = 34\<rparr>]"
proof -
  have c: "\<not> isspace CHR ''#''" "\<not> is_value CHR ''#''" "\<not> is_operator_char CHR ''#''"
    by (simp_all add: isspace_def is_value_def isdigit_def is_operator_char_def)
  have h: "''34'' \<noteq> [] \<and> (\<forall>d\<in>set ''34''. is_value d) \<and> (\<forall>p\<in>set ''2+''. lexable p)
      \<and> (''2+'' = [] \<or> is_operator_char (last ''2+''))"
    by (simp add: lexable_def isspace_def is_value_def isdigit_def is_operator_char_def)
  have p: "tz_tokens (parse atof_exact (tokenizer_init ''2+'')) =
      [\<lparr>tk_type = number, tk_text = ''2'', tk_number = 2\<rparr>,
       \<lparr>tk_type = op_add, tk_text = ''+'', tk_number = 0\<rparr>]"
    by (simp add: lex_defs)
  have n: "atof_exact ''34'' = 34"
    by (simp add: atof_exact_def isdigit_def decimal_def digit_value_def)
  have "tz_tokens (parse atof_exact (tokenizer_init (''2+'' @ ''34'' @ CHR ''#'' # ''5''))) =
      tz_tokens (parse atof_exact (tokenizer_init ''2+'')) @
      [\<lparr>tk_type = number, tk_text = ''34'', tk_number = atof_exact ''34''\<rparr>]"
    using parse_halts_at_bad_character [OF c, of atof_exact "''2+''" "''5''" "''34''"] h
    by blast
  then have 1: "tz_tokens (parse atof_exact (tokenizer_init ''2+34#5'')) =
       [\<lparr>tk_type = number, tk_text = ''2'', tk_number = 2\<rparr>,
        \<lparr>tk_type = op_add, tk_text = ''+'', tk_number = 0\<rparr>,
        \<lparr>tk_type = number, tk_text = ''34'', tk_number = 34\<rparr>]"
    unfolding p n by simp
  have "tz_error (parse atof_exact (tokenizer_init (''2+34'' @ CHR ''#'' # ''5'')))
      \<and> tz_tokens (parse atof_exact (tokenizer_init (''2+34'' @ CHR ''#'' # ''5''))) =
          tz_tokens (parse atof_exact (tokenizer_init ''2+34''))"
    using parse_halts_at_bad_character [OF c, of atof_exact "''2+34''" "''5''" "[]"]
    by blast
  then have 2: "tz_error (parse atof_exact (tokenizer_init ''2+34#5''))"
    and 3: "tz_tokens (parse atof_exact (tokenizer_init ''2+34'')) =
          tz_tokens (parse atof_exact (tokenizer_init ''2+34#5''))"
    by simp_all
  from 1 2 3 show ?thesis
    by simp
qed

lemma read_tokens_filter:
  "read_tokens atof (filter (\<lambda>c. \<not> isspace c) src) s = read_tokens atof src s"
proof (induction src arbitrary: s)
  case Nil
  then show ?case by simp
next
  case (Cons a src)
  then show ?case by (cases s) (simp add: Let_def)
qed

lemma read_tokens_text:
  assumes "read_tokens atof src (t, tokens, error) = (t', tokens', error')"
    and "text_clean t" and "\<forall>u\<in>set tokens. text_clean u"
  shows "text_clean t' \<and> (\<forall>u\<in>set tokens'. text_clean u)"
  using assms
proof (induction src arbitrary: t tokens error)
  case Nil
  then show ?case by simp
next
  case (Cons a src)
  show ?case
  proof (cases "isspace a")
    case True
    with Cons show ?thesis by simp
  next
    case sp: False
    show ?thesis
    proof (cases "is_value a")
      case True
      with sp Cons.prems have
        "read_tokens atof src (t\<lparr>tk_type := number, tk_text := tk_text t @ [a]\<rparr>, tokens, error)
           = (t', tokens', error')"
        by simp
      moreover have "text_clean (t\<lparr>tk_type := number, tk_text := tk_text t @ [a]\<rparr>)"
        using sp Cons.prems(2) by (simp add: text_clean_def)
      ultimately show ?thesis
        using Cons.IH Cons.prems(3) by blast
    next
      case v: False
      show ?thesis
      proof (cases "is_operator_char a")
        case True
        let ?t3 = "(clear t)\<lparr>tk_type := rune_type a unknown, tk_text := [a]\<rparr>"
        from True sp v Cons.prems have
          "read_tokens atof src (clear ?t3, push_pending atof t tokens @ [?t3], error)
             = (t', tokens', error')"
          by (simp add: Let_def clear_def)
        moreover have "text_clean (clear ?t3)"
          by (simp add: text_clean_def clear_def)
        moreover have "\<forall>u\<in>set (push_pending atof t tokens @ [?t3]). text_clean u"
          using sp Cons.prems(2,3) by (auto simp add: push_pending_def text_clean_def clear_def)
        ultimately show ?thesis
          using Cons.IH by blast
      next
        case False
        with sp v Cons.prems show ?thesis by simp
      qed
    qed
  qed
qed

lemma push_pending_text:
  "text_clean t \<Longrightarrow> \<forall>u\<in>set tokens. text_clean u \<Longrightarrow>
   \<forall>u\<in>set (push_pending atof t tokens). text_clean u"
  by (auto simp add: push_pending_def text_clean_def)

text \<open>
  Claim C9. White space is skipped: \<open>parse\<close> gives the same tokens and the same error
  flag on a source and on the source with its white-space characters removed (so white
  space between two runs of digits does not end the number), and no token holds a
  white-space character in its text. The source \<open>1 2\<close> gives one token, the number with
  text \<open>12\<close> and value 12.
\<close>

theorem whitespace_skipped:
  "tz_tokens (parse atof (tokenizer_init src)) =
     tz_tokens (parse atof (tokenizer_init (filter (\<lambda>c. \<not> isspace c) src)))
   \<and> tz_error (parse atof (tokenizer_init src)) =
     tz_error (parse atof (tokenizer_init (filter (\<lambda>c. \<not> isspace c) src)))
   \<and> (\<forall>t\<in>set (tz_tokens (parse atof (tokenizer_init src))). \<forall>c\<in>set (tk_text t). \<not> isspace c)
   \<and> tz_tokens (parse atof_exact (tokenizer_init ''1 2'')) =
       [\<lparr>tk_type = number, tk_text = ''12'', tk_number = 12\<rparr>]"
proof (intro conjI)
  show "tz_tokens (parse atof (tokenizer_init src)) =
     tz_tokens (parse atof (tokenizer_init (filter (\<lambda>c. \<not> isspace c) src)))"
    by (simp add: parse_def tokenizer_init_def read_tokens_filter split: prod.splits)
  show "tz_error (parse atof (tokenizer_init src)) =
     tz_error (parse atof (tokenizer_init (filter (\<lambda>c. \<not> isspace c) src)))"
    by (simp add: parse_def tokenizer_init_def read_tokens_filter verify_tokenlist_def Let_def
        split: prod.splits)
  show "\<forall>t\<in>set (tz_tokens (parse atof (tokenizer_init src))). \<forall>c\<in>set (tk_text t). \<not> isspace c"
  proof -
    obtain t tokens error where
      r: "read_tokens atof src (token_init, [], False) = (t, tokens, error)"
      by (metis prod_cases3)
    have "text_clean (token_init :: 'a token)"
      by (simp add: text_clean_def token_init_def)
    with r have "text_clean t \<and> (\<forall>u\<in>set tokens. text_clean u)"
      using read_tokens_text [of atof src token_init "[]" False t tokens error] by simp
    then have "\<forall>u\<in>set (push_pending atof t tokens). text_clean u"
      using push_pending_text by blast
    then show ?thesis
      using r by (simp add: parse_def tokenizer_init_def text_clean_def)
  qed
  show "tz_tokens (parse atof_exact (tokenizer_init ''1 2'')) =
       [\<lparr>tk_type = number, tk_text = ''12'', tk_number = 12\<rparr>]"
    by (simp add: lex_defs)
qed

text \<open>
  A tab and a space between 3 and 4 and spaces around \<open>+\<close>: the tokens are those of
  \<open>34+5\<close>, and no text holds white space.
\<close>

theorem whitespace_skipped_witness:
  "tz_tokens (parse atof_exact (tokenizer_init [CHR ''3'', CHR 0x09, CHR '' '', CHR ''4'',
      CHR '' '', CHR ''+'', CHR '' '', CHR ''5''])) =
     [\<lparr>tk_type = number, tk_text = ''34'', tk_number = 34\<rparr>,
      \<lparr>tk_type = op_add, tk_text = ''+'', tk_number = 0\<rparr>,
      \<lparr>tk_type = number, tk_text = ''5'', tk_number = 5\<rparr>]
   \<and> tz_tokens (parse atof_exact (tokenizer_init ''34+5'')) =
     [\<lparr>tk_type = number, tk_text = ''34'', tk_number = 34\<rparr>,
      \<lparr>tk_type = op_add, tk_text = ''+'', tk_number = 0\<rparr>,
      \<lparr>tk_type = number, tk_text = ''5'', tk_number = 5\<rparr>]
   \<and> list_all (\<lambda>t. list_all (\<lambda>c. \<not> isspace c) (tk_text t))
        (tz_tokens (parse atof_exact (tokenizer_init [CHR ''3'', CHR 0x09, CHR '' '', CHR ''4'',
           CHR '' '', CHR ''+'', CHR '' '', CHR ''5''])))"
  using whitespace_skipped
    [of atof_exact "[CHR ''3'', CHR 0x09, CHR '' '', CHR ''4'', CHR '' '', CHR ''+'', CHR '' '',
       CHR ''5'']"]
  by (simp add: lex_defs)

section \<open>The structural validation\<close>

subsection \<open>The counters\<close>

lemma count_kind_Cons:
  "count_kind ty (t # ts) = (if tk_type t = ty then Suc (count_kind ty ts) else count_kind ty ts)"
  by (simp add: count_kind_def)

lemma count_kind_le: "count_kind ty ts \<le> length ts"
  by (simp add: count_kind_def)

lemma count_operators_le: "count_operators ts \<le> length ts"
  by (induction ts) (auto simp add: count_operators_def count_kind_Cons count_kind_def)

lemma count_tokens_numbers:
  "numbers_count (fst (count_tokens ts s)) =
     numbers_count (fst s) + of_nat (count_kind number ts)"
proof (induction ts arbitrary: s)
  case Nil
  then show ?case by (simp add: count_kind_def)
next
  case (Cons t ts)
  then show ?case
    by (cases s; cases "tk_type t") (simp_all add: count_kind_Cons)
qed

lemma count_tokens_open:
  "open_brackets_count (fst (count_tokens ts s)) =
     open_brackets_count (fst s) + of_nat (count_kind open_bracket ts)"
proof (induction ts arbitrary: s)
  case Nil
  then show ?case by (simp add: count_kind_def)
next
  case (Cons t ts)
  then show ?case
    by (cases s; cases "tk_type t") (simp_all add: count_kind_Cons)
qed

lemma count_tokens_close:
  "close_brackets_count (fst (count_tokens ts s)) =
     close_brackets_count (fst s) + of_nat (count_kind close_bracket ts)"
proof (induction ts arbitrary: s)
  case Nil
  then show ?case by (simp add: count_kind_def)
next
  case (Cons t ts)
  then show ?case
    by (cases s; cases "tk_type t") (simp_all add: count_kind_Cons)
qed

lemma count_tokens_operations:
  "operations_count (fst (count_tokens ts s)) =
     operations_count (fst s) + of_nat (count_operators ts)"
proof (induction ts arbitrary: s)
  case Nil
  then show ?case by (simp add: count_operators_def count_kind_def)
next
  case (Cons t ts)
  then show ?case
    by (cases s; cases "tk_type t") (simp_all add: count_operators_def count_kind_Cons)
qed

lemma count_tokens_error:
  "snd (count_tokens ts s) \<longleftrightarrow> snd s \<or> (\<exists>t\<in>set ts. tk_type t = unknown)"
proof (induction ts arbitrary: s)
  case Nil
  then show ?case by simp
next
  case (Cons t ts)
  then show ?case
    by (cases s; cases "tk_type t") auto
qed

lemma word32_of_nat_eq:
  assumes "a < 2 ^ 32" and "b < 2 ^ 32"
  shows "(of_nat a :: 32 word) = of_nat b \<longleftrightarrow> a = b"
  using assms by (simp add: word_of_nat_eq_iff take_bit_nat_eq_self)

lemma verify_tokenlist_error:
  assumes "\<not> tz_error tz" and "\<forall>t\<in>set (tz_tokens tz). tk_type t \<noteq> unknown"
    and "length (tz_tokens tz) < 2 ^ 31"
  shows "tz_error (verify_tokenlist tz) \<longleftrightarrow>
           count_kind open_bracket (tz_tokens tz) \<noteq> count_kind close_bracket (tz_tokens tz)
           \<or> count_kind number (tz_tokens tz) \<noteq> count_operators (tz_tokens tz) + 1"
proof -
  let ?ts = "tz_tokens tz"
  let ?r = "count_tokens ?ts (counters_init, False)"
  have n: "numbers_count (fst ?r) = of_nat (count_kind number ?ts)"
    by (simp add: count_tokens_numbers counters_init_def)
  have p: "operations_count (fst ?r) + 1 = of_nat (Suc (count_operators ?ts))"
    by (simp add: count_tokens_operations counters_init_def)
  have o: "open_brackets_count (fst ?r) = of_nat (count_kind open_bracket ?ts)"
    by (simp add: count_tokens_open counters_init_def)
  have c: "close_brackets_count (fst ?r) = of_nat (count_kind close_bracket ?ts)"
    by (simp add: count_tokens_close counters_init_def)
  have e: "\<not> snd ?r"
    using assms(2) by (simp add: count_tokens_error)
  have b1: "count_kind ty ?ts < 2 ^ 32" for ty
    using count_kind_le [of ty ?ts] assms(3) by simp
  have b2: "Suc (count_operators ?ts) < 2 ^ 32"
    using count_operators_le [of ?ts] assms(3) by simp
  have x1: "(of_nat (count_kind open_bracket ?ts) :: 32 word) =
        of_nat (count_kind close_bracket ?ts) \<longleftrightarrow>
      count_kind open_bracket ?ts = count_kind close_bracket ?ts"
    using word32_of_nat_eq b1 by blast
  have x2: "(of_nat (count_kind number ?ts) :: 32 word) = of_nat (Suc (count_operators ?ts)) \<longleftrightarrow>
      count_kind number ?ts = Suc (count_operators ?ts)"
    using word32_of_nat_eq b1 b2 by blast
  have "tz_error (verify_tokenlist tz) \<longleftrightarrow>
          open_brackets_count (fst ?r) \<noteq> close_brackets_count (fst ?r)
          \<or> numbers_count (fst ?r) \<noteq> operations_count (fst ?r) + 1"
    using assms(1) e by (auto simp add: verify_tokenlist_def Let_def split: prod.splits)
  also have "\<dots> \<longleftrightarrow> count_kind open_bracket ?ts \<noteq> count_kind close_bracket ?ts
           \<or> count_kind number ?ts \<noteq> Suc (count_operators ?ts)"
    unfolding n p o c x1 x2 ..
  finally show ?thesis by simp
qed


subsection \<open>What the scan of a lexable source leaves\<close>

lemma rune_type_known: "is_operator_char a \<Longrightarrow> rune_type a ty \<noteq> unknown"
  by (auto simp add: is_operator_char_def rune_type_def)

lemma push_pending_known:
  "\<forall>u\<in>set tokens. tk_type u \<noteq> unknown \<Longrightarrow>
   \<forall>u\<in>set (push_pending atof t tokens). tk_type u \<noteq> unknown"
  by (auto simp add: push_pending_def)

lemma length_push_pending: "length (push_pending atof t tokens) = length tokens + pending t"
  by (simp add: push_pending_def pending_def)

lemma read_tokens_lexable:
  assumes "\<forall>c\<in>set src. lexable c"
    and "read_tokens atof src (t, tokens, error) = (t', tokens', error')"
    and "\<forall>u\<in>set tokens. tk_type u \<noteq> unknown"
  shows "error' = error \<and> (\<forall>u\<in>set tokens'. tk_type u \<noteq> unknown)
         \<and> length tokens' + pending t' \<le> length tokens + pending t + length src"
  using assms
proof (induction src arbitrary: t tokens)
  case Nil
  then show ?case by simp
next
  case (Cons a src)
  have lex: "\<forall>c\<in>set src. lexable c"
    using Cons.prems(1) by simp
  show ?case
  proof (cases "isspace a")
    case True
    with Cons.prems have "read_tokens atof src (t, tokens, error) = (t', tokens', error')"
      by simp
    from Cons.IH [OF lex this Cons.prems(3)] show ?thesis by simp
  next
    case sp: False
    show ?thesis
    proof (cases "is_value a")
      case True
      let ?t = "t\<lparr>tk_type := number, tk_text := tk_text t @ [a]\<rparr>"
      from True sp Cons.prems have "read_tokens atof src (?t, tokens, error) = (t', tokens', error')"
        by simp
      from Cons.IH [OF lex this Cons.prems(3)] show ?thesis
        by (simp add: pending_def split: if_splits)
    next
      case v: False
      then have op: "is_operator_char a"
        using sp Cons.prems(1) by (simp add: lexable_def)
      let ?t3 = "(clear t)\<lparr>tk_type := rune_type a unknown, tk_text := [a]\<rparr>"
      let ?tokens = "push_pending atof t tokens @ [?t3]"
      from op sp v Cons.prems have r: "read_tokens atof src (clear ?t3, ?tokens, error) = (t', tokens', error')"
        by (simp add: Let_def clear_def)
      have k: "\<forall>u\<in>set ?tokens. tk_type u \<noteq> unknown"
        using push_pending_known [OF Cons.prems(3)] rune_type_known [OF op] by simp
      have "pending (clear ?t3) = 0"
        by (simp add: pending_def clear_def)
      with Cons.IH [OF lex r k] show ?thesis
        by (simp add: length_push_pending)
    qed
  qed
qed

lemma parse_lexable:
  assumes "\<forall>c\<in>set src. lexable c"
  shows "\<exists>tokens. length tokens \<le> length src \<and> (\<forall>u\<in>set tokens. tk_type u \<noteq> unknown)
           \<and> parse atof (tokenizer_init src) =
               verify_tokenlist \<lparr>tz_src = src, tz_tokens = tokens, tz_error = False\<rparr>"
proof -
  obtain t' tokens' error' where
    r: "read_tokens atof src (token_init, [], False) = (t', tokens', error')"
    by (metis prod_cases3)
  from read_tokens_lexable [OF assms r] have
    e: "error' = False" and k: "\<forall>u\<in>set tokens'. tk_type u \<noteq> unknown"
    and l: "length tokens' + pending t' \<le> pending (token_init :: 'a token) + length src"
    by simp_all
  have "length (push_pending atof t' tokens') \<le> length src"
    using l by (simp add: length_push_pending pending_def token_init_def)
  moreover have "\<forall>u\<in>set (push_pending atof t' tokens'). tk_type u \<noteq> unknown"
    using push_pending_known [OF k] .
  moreover have "parse atof (tokenizer_init src) =
      verify_tokenlist \<lparr>tz_src = src, tz_tokens = push_pending atof t' tokens', tz_error = False\<rparr>"
    using r e by (simp add: parse_def tokenizer_init_def)
  ultimately show ?thesis by blast
qed

text \<open>
  Claim C4. Let every character of the source be white space, a digit or decimal point,
  or one of the six operator and bracket characters, so that the scan sets no error,
  and let the source be shorter than \<open>2 ^ 31\<close> characters, so that the \<^verbatim>\<open>int\<close>
  counters do not overflow. Then \<open>parse\<close> sets the error flag if and only if the token
  sequence holds different numbers of open and close brackets, or its number of
  \<open>number\<close> tokens is not its number of operator tokens plus one. The sources \<open>2+\<close>
  and \<open>((2+3)\<close> get the flag, whatever \<open>atof\<close> is.
\<close>

theorem structural_error_iff:
  assumes "\<forall>c\<in>set src. lexable c" and "length src < 2 ^ 31"
  shows "(tz_error (parse atof (tokenizer_init src)) \<longleftrightarrow>
            count_kind open_bracket (tz_tokens (parse atof (tokenizer_init src))) \<noteq>
              count_kind close_bracket (tz_tokens (parse atof (tokenizer_init src)))
            \<or> count_kind number (tz_tokens (parse atof (tokenizer_init src))) \<noteq>
              count_operators (tz_tokens (parse atof (tokenizer_init src))) + 1)
         \<and> tz_error (parse atof (tokenizer_init ''2+''))
         \<and> tz_error (parse atof (tokenizer_init ''((2+3)''))"
proof (intro conjI)
  obtain tokens where l: "length tokens \<le> length src"
    and k: "\<forall>u\<in>set tokens. tk_type u \<noteq> unknown"
    and p: "parse atof (tokenizer_init src) =
              verify_tokenlist \<lparr>tz_src = src, tz_tokens = tokens, tz_error = False\<rparr>"
    using parse_lexable [OF assms(1)] by blast
  let ?tz = "\<lparr>tz_src = src, tz_tokens = tokens, tz_error = False\<rparr>"
  have "length (tz_tokens ?tz) < 2 ^ 31"
    using l assms(2) by simp
  with k have "tz_error (verify_tokenlist ?tz) \<longleftrightarrow>
      count_kind open_bracket (tz_tokens ?tz) \<noteq> count_kind close_bracket (tz_tokens ?tz)
      \<or> count_kind number (tz_tokens ?tz) \<noteq> count_operators (tz_tokens ?tz) + 1"
    by (intro verify_tokenlist_error) simp_all
  then show "tz_error (parse atof (tokenizer_init src)) \<longleftrightarrow>
            count_kind open_bracket (tz_tokens (parse atof (tokenizer_init src))) \<noteq>
              count_kind close_bracket (tz_tokens (parse atof (tokenizer_init src)))
            \<or> count_kind number (tz_tokens (parse atof (tokenizer_init src))) \<noteq>
              count_operators (tz_tokens (parse atof (tokenizer_init src))) + 1"
    unfolding p by simp
  show "tz_error (parse atof (tokenizer_init ''2+''))"
    by (simp add: parse_def tokenizer_init_def token_init_def isspace_def is_value_def isdigit_def
      is_operator_char_def push_pending_def clear_def rune_type_def verify_tokenlist_def
      counters_init_def)
  show "tz_error (parse atof (tokenizer_init ''((2+3)''))"
    by (simp add: parse_def tokenizer_init_def token_init_def isspace_def is_value_def isdigit_def
      is_operator_char_def push_pending_def clear_def rune_type_def verify_tokenlist_def
      counters_init_def)
qed

text \<open>
  The source \<open>(2+3)*4\<close>: one bracket of each kind, three numbers and two operators, so
  the flag stays unset.
\<close>

theorem structural_error_iff_witness:
  "\<not> tz_error (parse atof_exact (tokenizer_init ''(2+3)*4''))
   \<and> count_kind open_bracket (tz_tokens (parse atof_exact (tokenizer_init ''(2+3)*4''))) = 1
   \<and> count_kind close_bracket (tz_tokens (parse atof_exact (tokenizer_init ''(2+3)*4''))) = 1
   \<and> count_kind number (tz_tokens (parse atof_exact (tokenizer_init ''(2+3)*4''))) = 3
   \<and> count_operators (tz_tokens (parse atof_exact (tokenizer_init ''(2+3)*4''))) = 2"
proof -
  let ?ts = "tz_tokens (parse atof_exact (tokenizer_init ''(2+3)*4''))"
  have l: "\<forall>c\<in>set ''(2+3)*4''. lexable c"
    by (simp add: lexable_def isspace_def is_value_def isdigit_def is_operator_char_def)
  have n: "length ''(2+3)*4'' < 2 ^ 31"
    by simp
  have c: "count_kind open_bracket ?ts = 1 \<and> count_kind close_bracket ?ts = 1
      \<and> count_kind number ?ts = 3 \<and> count_operators ?ts = 2"
    by (simp add: lex_defs count_kind_def count_operators_def)
  then have "\<not> tz_error (parse atof_exact (tokenizer_init ''(2+3)*4''))"
    using structural_error_iff [OF l n, of atof_exact] by simp
  with c show ?thesis by simp
qed

end
